theory Spec2Isabelle
  imports Complex_Main "HOL-Library.Word"
begin

section \<open>CGtPolygonSoup: relocation of the two member pointers\<close>

text \<open>
  The source (\<^verbatim>\<open>src/b3/CGtPolygonSoup.cpp\<close>):
  \<^verbatim>\<open>
  void CGtPolygonSoup::FixUp()
  {
      this->m_pMember1 = reinterpret_cast<Member1*>((uint32_t)this + (uint32_t)this->m_pMember1);
      this->m_pMember2 = reinterpret_cast<Member2*>((uint32_t)this + (uint32_t)this->m_pMember2);
  }
  \<close>
  The target machine has 32-bit pointers, so a pointer is a 32-bit word and the casts
  between a pointer and \<^verbatim>\<open>uint32_t\<close> do not change its bits. The sum of two
  \<^verbatim>\<open>uint32_t\<close> values wraps around modulo \<open>2 ^ 32\<close>, which is what \<open>+\<close> on
  \<^typ>\<open>32 word\<close> does.
\<close>

type_synonym uint32_t = "32 word"

text \<open>
  The class declaration (\<^verbatim>\<open>b3/CGtPolygonSoup.h\<close>) is not among the sources; the two
  members that \<^verbatim>\<open>FixUp\<close> touches are the fields of the record, and every other
  member the class may have is the extension part (\<open>more\<close>) of the record scheme.
\<close>

record CGtPolygonSoup =
  m_pMember1 :: uint32_t
  m_pMember2 :: uint32_t

text \<open>
  \<^verbatim>\<open>FixUp\<close> is a member function returning \<^verbatim>\<open>void\<close>: the model takes the address
  of the object (\<^verbatim>\<open>this\<close>) and the object's state, and returns the state after the
  two assignments. The second assignment reads the state left by the first one.
\<close>

definition FixUp :: "uint32_t \<Rightarrow> 'a CGtPolygonSoup_scheme \<Rightarrow> 'a CGtPolygonSoup_scheme" where
  "FixUp this s =
     (let s1 = s\<lparr>m_pMember1 := this + m_pMember1 s\<rparr>
      in s1\<lparr>m_pMember2 := this + m_pMember2 s1\<rparr>)"

section \<open>CGtCollisionKDTree: the three queries\<close>

text \<open>
  The source (\<^verbatim>\<open>src/b3/CGtCollisionKDTree.cpp\<close>) holds the four member functions of
  \<^verbatim>\<open>CGtCollisionKDTree\<close> (\<^verbatim>\<open>FixUp\<close> and the three queries) as \<^verbatim>\<open>INCLUDE_ASM\<close>
  lines only, each under a comment with its signature:
  \<^verbatim>\<open>IntersectSphere\<close> takes a \<^verbatim>\<open>GtMathPs2::CGtSphere\<close>, a pointer to a callback
  function and a \<^verbatim>\<open>void\<close> pointer; \<^verbatim>\<open>IntersectLine\<close> takes a \<^verbatim>\<open>const CGtLine&\<close>, a
  callback and a \<^verbatim>\<open>void\<close> pointer; \<^verbatim>\<open>IntersectLineNearest\<close> takes a
  \<^verbatim>\<open>const CGtLine&\<close> and a pointer to a \<^verbatim>\<open>CGtPolygonIntersectionResult\<close>. The callback
  takes a \<^verbatim>\<open>const CGtPolygonIntersectionResult&\<close> and a \<^verbatim>\<open>void\<close> pointer and returns
  \<^verbatim>\<open>bool\<close>. The bodies are assembly that is not among the sources. Every definition of
  this section is therefore written from the specification (sections 3 and 4.3 to 4.5), and
  says so.
  Coordinates are real numbers: the model is about the geometry the specification describes,
  not about the machine's floating-point arithmetic.
\<close>

subsection \<open>Data\<close>

text \<open>Modelled from the spec: a point or direction of the tree's coordinate space (the
  vector type is declared outside the sources).\<close>

datatype vec3 = Vec3 (vx: real) (vy: real) (vz: real)

text \<open>Modelled from the spec: the splitting axis of a split node.\<close>

datatype axis = AxisX | AxisY | AxisZ

text \<open>Modelled from the spec: the coordinate of a point along an axis, which a split node
  compares with its "split coordinate".\<close>

fun coord :: "axis \<Rightarrow> vec3 \<Rightarrow> real" where
  "coord AxisX v = vx v"
| "coord AxisY v = vy v"
| "coord AxisZ v = vz v"

text \<open>Modelled from the spec: \<^verbatim>\<open>CGtSphere\<close>, "a sphere (center + radius)"; its declaration
  is missing.\<close>

record CGtSphere =
  centre :: vec3
  radius :: real

text \<open>Modelled from the spec: \<^verbatim>\<open>CGtLine\<close>, "a line segment (start + end point, finite)";
  its declaration is missing.\<close>

record CGtLine =
  start :: vec3
  finish :: vec3

text \<open>Modelled from the spec: \<^verbatim>\<open>CGtPolygonIntersectionResult\<close>, with the fields
  "polygon identifier, contact point, surface normal, penetration depth or parametric hit
  distance (query-dependent)"; its declaration is missing.\<close>

record CGtPolygonIntersectionResult =
  polygon :: nat
  point :: vec3
  normal :: vec3
  distance :: real

text \<open>Modelled from the spec: what the test of one polygon against the query shape yields
  when they intersect. The per-polygon tests ("sphere-polygon overlap", "ray/segment-triangle
  intersection") are part of the missing assembly and the specification gives no formula
  for them, so the queries below take them as parameters: a sphere test
  \<open>st :: CGtSphere \<Rightarrow> 'p \<Rightarrow> contact option\<close> and a segment test
  \<open>lt :: CGtLine \<Rightarrow> 'p \<Rightarrow> contact option\<close> over a polygon type \<open>'p\<close>, with \<open>None\<close> for
  "no intersection".\<close>

record contact =
  contact_point :: vec3
  contact_normal :: vec3
  contact_distance :: real

text \<open>Modelled from the spec: "a binary tree of split nodes (splitting axis, split
  coordinate, child indices/references) terminating in leaf nodes that reference a run of
  polygon indices into the associated PolygonSoup". The first child of a split node is the
  side of the coordinates up to the split coordinate, the second the side from it on.\<close>

datatype kdnode = Leaf "nat list" | Split axis real kdnode kdnode

text \<open>Modelled from the spec: the tree object, its nodes and its reference to the polygon
  soup, the soup being seen through its "flat accessors to polygons by index".\<close>

record 'p CGtCollisionKDTree =
  kd_root :: kdnode
  kd_soup :: "'p list"

text \<open>Modelled from the spec: the callback, "taking a per-polygon intersection result and
  an opaque user context". It receives a result and the caller's context, may change the context, and returns
  whether the traversal continues (\<open>True\<close>) or stops (\<open>False\<close>).\<close>

type_synonym 'c callback = "CGtPolygonIntersectionResult \<Rightarrow> 'c \<Rightarrow> bool \<times> 'c"

subsection \<open>Leaves\<close>

text \<open>Modelled from the spec: the "populated intersection result" handed to the callback:
  the polygon's index with what the per-polygon test found.\<close>

definition report :: "nat \<Rightarrow> contact \<Rightarrow> CGtPolygonIntersectionResult" where
  "report i h = \<lparr>polygon = i, point = contact_point h, normal = contact_normal h,
                  distance = contact_distance h\<rparr>"

text \<open>Modelled from the spec: the test of the polygon a leaf refers to by index. The
  specification does not say what an index outside the soup does; the model finds no
  polygon there.\<close>

definition test_polygon :: "('p \<Rightarrow> contact option) \<Rightarrow> 'p list \<Rightarrow> nat
     \<Rightarrow> CGtPolygonIntersectionResult option" where
  "test_polygon hit soup i =
     (if i < length soup then map_option (report i) (hit (soup ! i)) else None)"

text \<open>Modelled from the spec: "at each visited leaf, tests every referenced polygon ... and,
  for each true overlap, invokes the callback with a populated intersection result ... and the
  user context"; "returning false/failure stops the traversal immediately and the call returns
  early; returning true/continue proceeds to the next candidate". The result is whether the
  traversal goes on, and the context as the callbacks left it.\<close>

fun visit_leaf :: "('p \<Rightarrow> contact option) \<Rightarrow> 'p list \<Rightarrow> 'c callback \<Rightarrow> nat list \<Rightarrow> 'c
     \<Rightarrow> bool \<times> 'c" where
  "visit_leaf hit soup cb [] ctx = (True, ctx)"
| "visit_leaf hit soup cb (i # is) ctx =
     (case test_polygon hit soup i of
        None \<Rightarrow> visit_leaf hit soup cb is ctx
      | Some res \<Rightarrow>
          (case cb res ctx of
             (True, ctx') \<Rightarrow> visit_leaf hit soup cb is ctx'
           | (False, ctx') \<Rightarrow> (False, ctx')))"

subsection \<open>IntersectSphere\<close>

text \<open>Modelled from the spec: "a child is skipped when the sphere's signed distance to the
  split plane exceeds the radius on the excluding side".\<close>

definition sphere_reaches_lower :: "CGtSphere \<Rightarrow> axis \<Rightarrow> real \<Rightarrow> bool" where
  "sphere_reaches_lower s a c = (\<not> coord a (centre s) - c > radius s)"

text \<open>Modelled from the spec: the same rule for the child on the upper side, where the signed
  distance has the opposite sign.\<close>

definition sphere_reaches_upper :: "CGtSphere \<Rightarrow> axis \<Rightarrow> real \<Rightarrow> bool" where
  "sphere_reaches_upper s a c = (\<not> c - coord a (centre s) > radius s)"

text \<open>Modelled from the spec: "recursively descends the tree, at each split node visiting
  only children whose bounding half-space can possibly contain the sphere". The order of
  the two children is left open by the specification; the model takes the lower side
  first. A stop from the callback ends the descent.\<close>

fun sphere_node :: "(CGtSphere \<Rightarrow> 'p \<Rightarrow> contact option) \<Rightarrow> 'p list \<Rightarrow> CGtSphere \<Rightarrow> 'c callback
     \<Rightarrow> kdnode \<Rightarrow> 'c \<Rightarrow> bool \<times> 'c" where
  "sphere_node st soup s cb (Leaf is) ctx = visit_leaf (st s) soup cb is ctx"
| "sphere_node st soup s cb (Split a c lo hi) ctx =
     (case (if sphere_reaches_lower s a c then sphere_node st soup s cb lo ctx else (True, ctx)) of
        (False, ctx') \<Rightarrow> (False, ctx')
      | (True, ctx') \<Rightarrow>
          (if sphere_reaches_upper s a c then sphere_node st soup s cb hi ctx' else (True, ctx')))"

text \<open>Modelled from the spec: \<^verbatim>\<open>IntersectSphere(sphere, callback, context)\<close>, "no result
  besides the side effects delivered via callback": the model returns the context after the
  last callback.\<close>

definition IntersectSphere :: "(CGtSphere \<Rightarrow> 'p \<Rightarrow> contact option) \<Rightarrow> 'p CGtCollisionKDTree
     \<Rightarrow> CGtSphere \<Rightarrow> 'c callback \<Rightarrow> 'c \<Rightarrow> 'c" where
  "IntersectSphere st tree s cb ctx = snd (sphere_node st (kd_soup tree) s cb (kd_root tree) ctx)"

subsection \<open>IntersectLine\<close>

text \<open>Modelled from the spec: "visiting only children whose half-space the segment can
  cross (slab/segment-vs-plane test against the split coordinate)".\<close>

definition line_reaches_lower :: "CGtLine \<Rightarrow> axis \<Rightarrow> real \<Rightarrow> bool" where
  "line_reaches_lower l a c = (min (coord a (start l)) (coord a (finish l)) \<le> c)"

text \<open>Modelled from the spec: the same test for the child on the upper side.\<close>

definition line_reaches_upper :: "CGtLine \<Rightarrow> axis \<Rightarrow> real \<Rightarrow> bool" where
  "line_reaches_upper l a c = (c \<le> max (coord a (start l)) (coord a (finish l)))"

text \<open>Modelled from the spec: the descent of \<^verbatim>\<open>IntersectLine\<close>, "invoking the callback
  once per intersecting polygon", "in traversal order (not necessarily sorted by distance)",
  "early termination via callback return value, identical contract to 4.3".\<close>

fun line_node :: "(CGtLine \<Rightarrow> 'p \<Rightarrow> contact option) \<Rightarrow> 'p list \<Rightarrow> CGtLine \<Rightarrow> 'c callback
     \<Rightarrow> kdnode \<Rightarrow> 'c \<Rightarrow> bool \<times> 'c" where
  "line_node lt soup l cb (Leaf is) ctx = visit_leaf (lt l) soup cb is ctx"
| "line_node lt soup l cb (Split a c lo hi) ctx =
     (case (if line_reaches_lower l a c then line_node lt soup l cb lo ctx else (True, ctx)) of
        (False, ctx') \<Rightarrow> (False, ctx')
      | (True, ctx') \<Rightarrow>
          (if line_reaches_upper l a c then line_node lt soup l cb hi ctx' else (True, ctx')))"

text \<open>Modelled from the spec: \<^verbatim>\<open>IntersectLine(segment, callback, context)\<close>.\<close>

definition IntersectLine :: "(CGtLine \<Rightarrow> 'p \<Rightarrow> contact option) \<Rightarrow> 'p CGtCollisionKDTree
     \<Rightarrow> CGtLine \<Rightarrow> 'c callback \<Rightarrow> 'c \<Rightarrow> 'c" where
  "IntersectLine lt tree l cb ctx = snd (line_node lt (kd_soup tree) l cb (kd_root tree) ctx)"

subsection \<open>IntersectLineNearest\<close>

text \<open>Modelled from the spec: the point of the segment at "parametric distance" \<open>t\<close>,
  \<open>0\<close> at the start and \<open>1\<close> at the end.\<close>

definition point_at :: "CGtLine \<Rightarrow> real \<Rightarrow> vec3" where
  "point_at l t = Vec3 (vx (start l) + t * (vx (finish l) - vx (start l)))
                       (vy (start l) + t * (vy (finish l) - vy (start l)))
                       (vz (start l) + t * (vz (finish l) - vz (start l)))"

text \<open>Modelled from the spec: "prunes any subtree whose bounding region lies entirely beyond
  that distance along the segment". The part of the segment up to parameter \<open>t\<close> reaches a
  side of the split plane when one of its two ends lies on that side.\<close>

definition segment_reaches_lower :: "CGtLine \<Rightarrow> real \<Rightarrow> axis \<Rightarrow> real \<Rightarrow> bool" where
  "segment_reaches_lower l t a c = (min (coord a (start l)) (coord a (point_at l t)) \<le> c)"

text \<open>Modelled from the spec: the same test for the child on the upper side.\<close>

definition segment_reaches_upper :: "CGtLine \<Rightarrow> real \<Rightarrow> axis \<Rightarrow> real \<Rightarrow> bool" where
  "segment_reaches_upper l t a c = (c \<le> max (coord a (start l)) (coord a (point_at l t)))"

text \<open>Modelled from the spec: the "running best hit so far parametric distance". Before
  the first hit the search covers the whole segment, up to parameter \<open>1\<close>.\<close>

definition search_limit :: "CGtPolygonIntersectionResult option \<Rightarrow> real" where
  "search_limit best = (case best of None \<Rightarrow> 1 | Some b \<Rightarrow> distance b)"

text \<open>Modelled from the spec: "for each intersecting polygon whose hit distance is strictly
  closer than the current best, updates the best result".\<close>

definition improve :: "CGtPolygonIntersectionResult option \<Rightarrow> CGtPolygonIntersectionResult
     \<Rightarrow> CGtPolygonIntersectionResult option" where
  "improve best r =
     (case best of None \<Rightarrow> Some r
      | Some b \<Rightarrow> if distance r < distance b then Some r else Some b)"

text \<open>Modelled from the spec: "at each visited leaf, tests all referenced polygons".\<close>

fun nearest_leaf :: "('p \<Rightarrow> contact option) \<Rightarrow> 'p list \<Rightarrow> nat list
     \<Rightarrow> CGtPolygonIntersectionResult option \<Rightarrow> CGtPolygonIntersectionResult option" where
  "nearest_leaf hit soup [] best = best"
| "nearest_leaf hit soup (i # is) best =
     nearest_leaf hit soup is
       (case test_polygon hit soup i of None \<Rightarrow> best | Some r \<Rightarrow> improve best r)"

text \<open>Modelled from the spec: "descends the tree with a tightening search" in the manner of
  "a classic best-first KD-tree nearest-hit prune": the child on the side of the segment's
  start comes first, and a child is entered only if the segment, cut at the best distance
  found so far, reaches its side.\<close>

fun nearest_node :: "(CGtLine \<Rightarrow> 'p \<Rightarrow> contact option) \<Rightarrow> 'p list \<Rightarrow> CGtLine \<Rightarrow> kdnode
     \<Rightarrow> CGtPolygonIntersectionResult option \<Rightarrow> CGtPolygonIntersectionResult option" where
  "nearest_node lt soup l (Leaf is) best = nearest_leaf (lt l) soup is best"
| "nearest_node lt soup l (Split a c lo hi) best =
     (if coord a (start l) \<le> c
      then (let best1 = (if segment_reaches_lower l (search_limit best) a c
                         then nearest_node lt soup l lo best else best)
            in if segment_reaches_upper l (search_limit best1) a c
               then nearest_node lt soup l hi best1 else best1)
      else (let best1 = (if segment_reaches_upper l (search_limit best) a c
                         then nearest_node lt soup l hi best else best)
            in if segment_reaches_lower l (search_limit best1) a c
               then nearest_node lt soup l lo best1 else best1))"

text \<open>Modelled from the spec: \<^verbatim>\<open>IntersectLineNearest(segment, slot)\<close>, "returns a boolean ...
  indicating whether any intersection was found; on success, the output slot is populated
  with the single nearest intersection's polygon id, hit point/distance, and normal; on
  failure, the slot is left unspecified". The model takes the slot's content and returns the
  boolean with the slot's content afterwards; on failure it leaves the slot as it was.\<close>

definition IntersectLineNearest :: "(CGtLine \<Rightarrow> 'p \<Rightarrow> contact option) \<Rightarrow> 'p CGtCollisionKDTree
     \<Rightarrow> CGtLine \<Rightarrow> CGtPolygonIntersectionResult \<Rightarrow> bool \<times> CGtPolygonIntersectionResult" where
  "IntersectLineNearest lt tree l slot =
     (case nearest_node lt (kd_soup tree) l (kd_root tree) None of
        None \<Rightarrow> (False, slot)
      | Some r \<Rightarrow> (True, r))"

subsection \<open>The tree invariant and geometric intersection\<close>

text \<open>Modelled from the spec: the leaves whose region holds the point \<open>x\<close>. A point on a
  split plane belongs to both sides.\<close>

fun leaves_at :: "kdnode \<Rightarrow> vec3 \<Rightarrow> nat list list" where
  "leaves_at (Leaf is) x = [is]"
| "leaves_at (Split a c lo hi) x =
     (if coord a x \<le> c then leaves_at lo x else [])
     @ (if c \<le> coord a x then leaves_at hi x else [])"

text \<open>Modelled from the spec: the invariant of the tree, "the tree covers the soup's full
  polygon set with no omissions (a miss means "no intersection", never "un-indexed
  geometry")": every point of every polygon of the soup lies in the region of a leaf that
  refers to the polygon. \<open>pts\<close> gives the set of points of a polygon.\<close>

definition indexed :: "('p \<Rightarrow> vec3 set) \<Rightarrow> 'p list \<Rightarrow> kdnode \<Rightarrow> bool" where
  "indexed pts soup node =
     (\<forall>i<length soup. \<forall>x\<in>pts (soup ! i). \<exists>is\<in>set (leaves_at node x). i \<in> set is)"

text \<open>Modelled from the spec: a sphere "(center + radius)" as the closed ball, with squared
  lengths compared.\<close>

definition in_sphere :: "CGtSphere \<Rightarrow> vec3 \<Rightarrow> bool" where
  "in_sphere s x =
     ((vx x - vx (centre s))\<^sup>2 + (vy x - vy (centre s))\<^sup>2 + (vz x - vz (centre s))\<^sup>2
        \<le> (radius s)\<^sup>2)"

text \<open>Modelled from the spec: a sphere "geometrically intersects" a polygon when they have a
  point in common.\<close>

definition sphere_meets :: "('p \<Rightarrow> vec3 set) \<Rightarrow> CGtSphere \<Rightarrow> 'p \<Rightarrow> bool" where
  "sphere_meets pts s p = (\<exists>x\<in>pts p. in_sphere s x)"

text \<open>Modelled from the spec: a segment "geometrically intersects" a polygon when a point of
  the segment, at a parameter from \<open>0\<close> to \<open>1\<close>, is a point of the polygon.\<close>

definition segment_meets :: "('p \<Rightarrow> vec3 set) \<Rightarrow> CGtLine \<Rightarrow> 'p \<Rightarrow> bool" where
  "segment_meets pts l p = (\<exists>t. 0 \<le> t \<and> t \<le> 1 \<and> point_at l t \<in> pts p)"

text \<open>Modelled from the spec: what the missing segment test is taken to do on the polygons
  of the soup, for the segment at hand ("tests the segment against every referenced polygon
  for a ray/segment-triangle intersection"): it finds a hit exactly for the polygons the
  segment meets, and its hit distance is the parameter, "a parametric distance in [0,1]", of
  a point of the polygon on the segment.\<close>

definition line_test_exact :: "('p \<Rightarrow> vec3 set) \<Rightarrow> (CGtLine \<Rightarrow> 'p \<Rightarrow> contact option) \<Rightarrow> 'p list
     \<Rightarrow> CGtLine \<Rightarrow> bool" where
  "line_test_exact pts lt soup l =
     (\<forall>i<length soup.
        case lt l (soup ! i) of
          None \<Rightarrow> \<not> segment_meets pts l (soup ! i)
        | Some h \<Rightarrow> 0 \<le> contact_distance h \<and> contact_distance h \<le> 1
                   \<and> point_at l (contact_distance h) \<in> pts (soup ! i))"

text \<open>Modelled from the spec: what the missing sphere test is taken to do on the polygons of
  the soup, for the sphere at hand ("tests every referenced polygon in the soup for
  sphere-polygon overlap"): it finds an overlap exactly for the polygons the sphere meets.\<close>

definition sphere_test_exact :: "('p \<Rightarrow> vec3 set) \<Rightarrow> (CGtSphere \<Rightarrow> 'p \<Rightarrow> contact option) \<Rightarrow> 'p list
     \<Rightarrow> CGtSphere \<Rightarrow> bool" where
  "sphere_test_exact pts st soup s =
     (\<forall>i<length soup. (st s (soup ! i) \<noteq> None) = sphere_meets pts s (soup ! i))"

subsection \<open>Observing the callback\<close>

text \<open>Modelled from the spec: a callback that keeps a record of its invocations, to observe
  their number and order. \<open>traced cb\<close> behaves as \<open>cb\<close> on the caller's context and
  appends, at each invocation, the result it was given and the flag \<open>cb\<close> returned.\<close>

definition traced :: "'c callback \<Rightarrow> ((CGtPolygonIntersectionResult \<times> bool) list \<times> 'c) callback" where
  "traced cb res st = (case st of (tr, ctx) \<Rightarrow>
      (case cb res ctx of (go, ctx') \<Rightarrow> (go, (tr @ [(res, go)], ctx'))))"

text \<open>Modelled from the spec: the invocations of the callback \<open>cb\<close> during one call of
  \<^verbatim>\<open>IntersectSphere\<close>, in order, each with the flag the callback returned.\<close>

definition sphere_trace :: "(CGtSphere \<Rightarrow> 'p \<Rightarrow> contact option) \<Rightarrow> 'p CGtCollisionKDTree
     \<Rightarrow> CGtSphere \<Rightarrow> 'c callback \<Rightarrow> 'c \<Rightarrow> (CGtPolygonIntersectionResult \<times> bool) list" where
  "sphere_trace st tree s cb ctx = fst (IntersectSphere st tree s (traced cb) ([], ctx))"

text \<open>Modelled from the spec: the invocations of the callback \<open>cb\<close> during one call of
  \<^verbatim>\<open>IntersectLine\<close>, in order, each with the flag the callback returned.\<close>

definition line_trace :: "(CGtLine \<Rightarrow> 'p \<Rightarrow> contact option) \<Rightarrow> 'p CGtCollisionKDTree
     \<Rightarrow> CGtLine \<Rightarrow> 'c callback \<Rightarrow> 'c \<Rightarrow> (CGtPolygonIntersectionResult \<times> bool) list" where
  "line_trace lt tree l cb ctx = fst (IntersectLine lt tree l (traced cb) ([], ctx))"

text \<open>
  For the proofs: the results a traversal would hand over if no callback ever stopped it
  (\<open>leaf_hits\<close>, \<open>sphere_hits\<close>, \<open>line_hits\<close>), the delivery of a list of results to a
  callback until it stops (\<open>deliver\<close>), the invocations that delivery makes (\<open>calls\<close>),
  and a best hit that lies no farther than a given distance (\<open>no_farther\<close>).
\<close>

fun leaf_hits :: "('p \<Rightarrow> contact option) \<Rightarrow> 'p list \<Rightarrow> nat list \<Rightarrow> CGtPolygonIntersectionResult list" where
  "leaf_hits hit soup [] = []"
| "leaf_hits hit soup (i # is) =
     (case test_polygon hit soup i of None \<Rightarrow> leaf_hits hit soup is
      | Some res \<Rightarrow> res # leaf_hits hit soup is)"

fun sphere_hits :: "(CGtSphere \<Rightarrow> 'p \<Rightarrow> contact option) \<Rightarrow> 'p list \<Rightarrow> CGtSphere \<Rightarrow> kdnode
     \<Rightarrow> CGtPolygonIntersectionResult list" where
  "sphere_hits st soup s (Leaf is) = leaf_hits (st s) soup is"
| "sphere_hits st soup s (Split a c lo hi) =
     (if sphere_reaches_lower s a c then sphere_hits st soup s lo else [])
     @ (if sphere_reaches_upper s a c then sphere_hits st soup s hi else [])"

fun line_hits :: "(CGtLine \<Rightarrow> 'p \<Rightarrow> contact option) \<Rightarrow> 'p list \<Rightarrow> CGtLine \<Rightarrow> kdnode
     \<Rightarrow> CGtPolygonIntersectionResult list" where
  "line_hits lt soup l (Leaf is) = leaf_hits (lt l) soup is"
| "line_hits lt soup l (Split a c lo hi) =
     (if line_reaches_lower l a c then line_hits lt soup l lo else [])
     @ (if line_reaches_upper l a c then line_hits lt soup l hi else [])"

fun deliver :: "'c callback \<Rightarrow> CGtPolygonIntersectionResult list \<Rightarrow> 'c \<Rightarrow> bool \<times> 'c" where
  "deliver cb [] ctx = (True, ctx)"
| "deliver cb (r # rs) ctx =
     (case cb r ctx of (True, ctx') \<Rightarrow> deliver cb rs ctx' | (False, ctx') \<Rightarrow> (False, ctx'))"

fun calls :: "'c callback \<Rightarrow> CGtPolygonIntersectionResult list \<Rightarrow> 'c
     \<Rightarrow> (CGtPolygonIntersectionResult \<times> bool) list" where
  "calls cb [] ctx = []"
| "calls cb (r # rs) ctx =
     (case cb r ctx of (True, ctx') \<Rightarrow> (r, True) # calls cb rs ctx' | (False, ctx') \<Rightarrow> [(r, False)])"

definition no_farther :: "CGtPolygonIntersectionResult option \<Rightarrow> real \<Rightarrow> bool" where
  "no_farther best d = (case best of None \<Rightarrow> False | Some b \<Rightarrow> distance b \<le> d)"

subsection \<open>An example scene\<close>

text \<open>
  The concrete inputs of the examples follow the scenario of the specification (section 8),
  "a soup with a single flat quad polygon at z=0 spanning x,y in [-1,1]": polygons are
  rectangles with sides along the x and y axes in a plane of constant z, with a sphere test
  and a segment test for them. They are example inputs for the parameters of the queries,
  not a model of the missing per-polygon routines.
\<close>

text \<open>Modelled from the spec: a flat quad as in the scenario, by its ranges of x and y and
  its z.\<close>

record flat_quad =
  quad_x0 :: real
  quad_x1 :: real
  quad_y0 :: real
  quad_y1 :: real
  quad_z :: real

text \<open>Modelled from the spec: the points of a flat quad.\<close>

definition quad_points :: "flat_quad \<Rightarrow> vec3 set" where
  "quad_points q = {v. quad_x0 q \<le> vx v \<and> vx v \<le> quad_x1 q
                     \<and> quad_y0 q \<le> vy v \<and> vy v \<le> quad_y1 q \<and> vz v = quad_z q}"

text \<open>The value of the range from \<open>lo\<close> to \<open>hi\<close> nearest to \<open>v\<close>.\<close>

definition clamp :: "real \<Rightarrow> real \<Rightarrow> real \<Rightarrow> real" where
  "clamp lo hi v = max lo (min hi v)"

text \<open>An example sphere test for flat quads: the point of the quad nearest to the centre
  decides the overlap; the normal is the direction of z and the depth is measured along
  it.\<close>

definition quad_sphere_test :: "CGtSphere \<Rightarrow> flat_quad \<Rightarrow> contact option" where
  "quad_sphere_test s q =
     (let c = centre s;
          p = Vec3 (clamp (quad_x0 q) (quad_x1 q) (vx c)) (clamp (quad_y0 q) (quad_y1 q) (vy c))
                (quad_z q)
      in if in_sphere s p
         then Some \<lparr>contact_point = p, contact_normal = Vec3 0 0 1,
                    contact_distance = radius s - \<bar>vz c - quad_z q\<bar>\<rparr>
         else None)"

text \<open>An example segment test for flat quads: a segment that is not parallel to the plane
  of the quad crosses the plane at one parameter; a parallel one is given no hit.\<close>

definition quad_line_test :: "CGtLine \<Rightarrow> flat_quad \<Rightarrow> contact option" where
  "quad_line_test l q =
     (let sz = vz (start l); ez = vz (finish l)
      in if sz = ez then None
         else (let t = (quad_z q - sz) / (ez - sz); p = point_at l t
               in if 0 \<le> t \<and> t \<le> 1 \<and> quad_x0 q \<le> vx p \<and> vx p \<le> quad_x1 q
                     \<and> quad_y0 q \<le> vy p \<and> vy p \<le> quad_y1 q
                  then Some \<lparr>contact_point = p, contact_normal = Vec3 0 0 1, contact_distance = t\<rparr>
                  else None))"

text \<open>The soup of the scenario, with the one quad at \<open>z = 0\<close>, under a tree of one leaf;
  the sphere and the segment of the scenario.\<close>

definition scenario_tree :: "flat_quad CGtCollisionKDTree" where
  "scenario_tree = \<lparr>kd_root = Leaf [0],
     kd_soup = [\<lparr>quad_x0 = -1, quad_x1 = 1, quad_y0 = -1, quad_y1 = 1, quad_z = 0\<rparr>]\<rparr>"

definition scenario_sphere :: CGtSphere where
  "scenario_sphere = \<lparr>centre = Vec3 0 0 (1 / 2), radius = 1\<rparr>"

text \<open>Two quads, at \<open>z = 0\<close> and at \<open>z = 2\<close>, under a tree that splits at \<open>z = 1\<close>.\<close>

definition scene_soup :: "flat_quad list" where
  "scene_soup = [\<lparr>quad_x0 = -1, quad_x1 = 1, quad_y0 = -1, quad_y1 = 1, quad_z = 0\<rparr>,
                 \<lparr>quad_x0 = -1, quad_x1 = 1, quad_y0 = -1, quad_y1 = 1, quad_z = 2\<rparr>]"

definition scene_tree :: "flat_quad CGtCollisionKDTree" where
  "scene_tree = \<lparr>kd_root = Split AxisZ 1 (Leaf [0]) (Leaf [1]), kd_soup = scene_soup\<rparr>"

text \<open>A segment through both quads and a sphere overlapping both; a segment and a sphere
  above both.\<close>

definition scene_line :: CGtLine where
  "scene_line = \<lparr>start = Vec3 0 0 5, finish = Vec3 0 0 (-5)\<rparr>"

definition scene_sphere :: CGtSphere where
  "scene_sphere = \<lparr>centre = Vec3 0 0 1, radius = 3 / 2\<rparr>"

definition miss_line :: CGtLine where
  "miss_line = \<lparr>start = Vec3 0 0 5, finish = Vec3 0 0 3\<rparr>"

definition miss_sphere :: CGtSphere where
  "miss_sphere = \<lparr>centre = Vec3 0 0 5, radius = 1\<rparr>"

text \<open>Two callbacks that count their invocations in the context: one stops at its first
  invocation, the other never stops.\<close>

definition stop_at_first :: "nat callback" where
  "stop_at_first r n = (False, Suc n)"

definition keep_going :: "nat callback" where
  "keep_going r n = (True, Suc n)"

definition empty_slot :: CGtPolygonIntersectionResult where
  "empty_slot = \<lparr>polygon = 0, point = Vec3 0 0 0, normal = Vec3 0 0 0, distance = 0\<rparr>"

section \<open>Properties of FixUp\<close>

lemma FixUp_m_pMember1: "m_pMember1 (FixUp this s) = this + m_pMember1 s"
  by (simp add: FixUp_def)

lemma FixUp_m_pMember2: "m_pMember2 (FixUp this s) = this + m_pMember2 s"
  by (simp add: FixUp_def)

lemma FixUp_more: "CGtPolygonSoup.more (FixUp this s) = CGtPolygonSoup.more s"
  by (simp add: FixUp_def)

lemma FixUp_updates:
  "FixUp this s = s\<lparr>m_pMember1 := this + m_pMember1 s, m_pMember2 := this + m_pMember2 s\<rparr>"
  by (simp add: FixUp_def)

lemma FixUp_wraps_example:
  "FixUp 0xFFFFFFF0 \<lparr>m_pMember1 = 0x20, m_pMember2 = 0x10\<rparr>
     = \<lparr>m_pMember1 = 0x10, m_pMember2 = 0\<rparr>"
  by (simp add: FixUp_def)

text \<open>
  C1. One call of \<^verbatim>\<open>FixUp\<close> adds the object's own base address to each of the two
  stored offsets, in place: each field afterwards holds base plus the stored offset. A
  field that stored the offset of a target block relative to the object (target minus
  base) holds the address of that target afterwards.
\<close>

theorem FixUp_adds_base:
  "m_pMember1 (FixUp this s) = this + m_pMember1 s
   \<and> m_pMember2 (FixUp this s) = this + m_pMember2 s
   \<and> FixUp this s = s\<lparr>m_pMember1 := this + m_pMember1 s, m_pMember2 := this + m_pMember2 s\<rparr>
   \<and> FixUp this (s\<lparr>m_pMember1 := t1 - this, m_pMember2 := t2 - this\<rparr>)
       = s\<lparr>m_pMember1 := t1, m_pMember2 := t2\<rparr>"
  by (simp add: FixUp_def)

text \<open>
  C7. \<^verbatim>\<open>FixUp\<close> is not idempotent. A second call adds the base address once more:
  each field after two calls is the field after one call plus the base address. The
  address of an object is never the null address, so the fields after two calls differ
  from the fields after one call, and a field that stored the offset of a target no
  longer holds the target's address.
\<close>

theorem FixUp_twice_not_idempotent:
  "m_pMember1 (FixUp this (FixUp this s)) = m_pMember1 (FixUp this s) + this
   \<and> m_pMember2 (FixUp this (FixUp this s)) = m_pMember2 (FixUp this s) + this
   \<and> (this \<noteq> 0 \<longrightarrow>
        m_pMember1 (FixUp this (FixUp this s)) \<noteq> m_pMember1 (FixUp this s)
      \<and> m_pMember2 (FixUp this (FixUp this s)) \<noteq> m_pMember2 (FixUp this s)
      \<and> FixUp this (FixUp this s) \<noteq> FixUp this s
      \<and> m_pMember1 (FixUp this (FixUp this
            (s\<lparr>m_pMember1 := t1 - this, m_pMember2 := t2 - this\<rparr>))) \<noteq> t1
      \<and> m_pMember2 (FixUp this (FixUp this
            (s\<lparr>m_pMember1 := t1 - this, m_pMember2 := t2 - this\<rparr>))) \<noteq> t2)"
proof -
  have one: "m_pMember1 (FixUp this (FixUp this s)) = m_pMember1 (FixUp this s) + this"
    by (simp add: FixUp_m_pMember1)
  have two: "m_pMember2 (FixUp this (FixUp this s)) = m_pMember2 (FixUp this s) + this"
    by (simp add: FixUp_m_pMember2)
  have rest: "m_pMember1 (FixUp this (FixUp this s)) \<noteq> m_pMember1 (FixUp this s)
      \<and> m_pMember2 (FixUp this (FixUp this s)) \<noteq> m_pMember2 (FixUp this s)
      \<and> FixUp this (FixUp this s) \<noteq> FixUp this s
      \<and> m_pMember1 (FixUp this (FixUp this
            (s\<lparr>m_pMember1 := t1 - this, m_pMember2 := t2 - this\<rparr>))) \<noteq> t1
      \<and> m_pMember2 (FixUp this (FixUp this
            (s\<lparr>m_pMember1 := t1 - this, m_pMember2 := t2 - this\<rparr>))) \<noteq> t2"
    if nz: "this \<noteq> 0"
  proof -
    have d1: "m_pMember1 (FixUp this (FixUp this s)) \<noteq> m_pMember1 (FixUp this s)"
      using nz by (simp add: one)
    have d2: "m_pMember2 (FixUp this (FixUp this s)) \<noteq> m_pMember2 (FixUp this s)"
      using nz by (simp add: two)
    have d3: "FixUp this (FixUp this s) \<noteq> FixUp this s"
      using d1 by auto
    have d4: "m_pMember1 (FixUp this (FixUp this
            (s\<lparr>m_pMember1 := t1 - this, m_pMember2 := t2 - this\<rparr>))) \<noteq> t1"
      using nz by (simp add: FixUp_m_pMember1)
    have d5: "m_pMember2 (FixUp this (FixUp this
            (s\<lparr>m_pMember1 := t1 - this, m_pMember2 := t2 - this\<rparr>))) \<noteq> t2"
      using nz by (simp add: FixUp_m_pMember2)
    from d1 d2 d3 d4 d5 show ?thesis by blast
  qed
  from one two rest show ?thesis by blast
qed

theorem FixUp_twice_not_idempotent_witness:
  "(0x00400000 :: uint32_t) \<noteq> 0
   \<and> FixUp 0x00400000 \<lparr>m_pMember1 = 0x10, m_pMember2 = 0x80\<rparr>
       = \<lparr>m_pMember1 = 0x00400010, m_pMember2 = 0x00400080\<rparr>
   \<and> FixUp 0x00400000 (FixUp 0x00400000 \<lparr>m_pMember1 = 0x10, m_pMember2 = 0x80\<rparr>)
       = \<lparr>m_pMember1 = 0x00800010, m_pMember2 = 0x00800080\<rparr>
   \<and> FixUp 0x00400000 (FixUp 0x00400000 \<lparr>m_pMember1 = 0x10, m_pMember2 = 0x80\<rparr>)
       \<noteq> FixUp 0x00400000 \<lparr>m_pMember1 = 0x10, m_pMember2 = 0x80\<rparr>"
proof -
  have nz: "(0x00400000 :: uint32_t) \<noteq> 0" by simp
  have v1: "FixUp 0x00400000 \<lparr>m_pMember1 = 0x10, m_pMember2 = 0x80\<rparr>
       = \<lparr>m_pMember1 = 0x00400010, m_pMember2 = 0x00400080\<rparr>"
    by (simp add: FixUp_def)
  have v2: "FixUp 0x00400000 (FixUp 0x00400000 \<lparr>m_pMember1 = 0x10, m_pMember2 = 0x80\<rparr>)
       = \<lparr>m_pMember1 = 0x00800010, m_pMember2 = 0x00800080\<rparr>"
    by (simp add: FixUp_def)
  from FixUp_twice_not_idempotent
         [of "0x00400000" "\<lparr>m_pMember1 = 0x10, m_pMember2 = 0x80\<rparr>" 0 0] nz
  have "FixUp 0x00400000 (FixUp 0x00400000 \<lparr>m_pMember1 = 0x10, m_pMember2 = 0x80\<rparr>)
       \<noteq> FixUp 0x00400000 \<lparr>m_pMember1 = 0x10, m_pMember2 = 0x80\<rparr>"
    by blast
  with nz v1 v2 show ?thesis by blast
qed

text \<open>
  C9. \<^verbatim>\<open>FixUp\<close> returns nothing (the model returns the object's new state only) and
  changes nothing but the two members: every other part of the object's state is as
  before, and the new state is the old one with the two fields replaced.
\<close>

theorem FixUp_frame:
  "CGtPolygonSoup.more (FixUp this s) = CGtPolygonSoup.more s
   \<and> FixUp this s = s\<lparr>m_pMember1 := m_pMember1 (FixUp this s),
                        m_pMember2 := m_pMember2 (FixUp this s)\<rparr>"
  by (simp add: FixUp_def)

text \<open>
  C10. The two additions are 32-bit unsigned additions: read as natural numbers, each
  new field is base plus stored offset modulo \<open>2 ^ 32\<close>. The value written to
  \<^verbatim>\<open>m_pMember2\<close> is the same whatever \<^verbatim>\<open>m_pMember1\<close> held: it depends on the
  base address and the original \<^verbatim>\<open>m_pMember2\<close> only.
\<close>

theorem FixUp_uint32_arith:
  "unat (m_pMember1 (FixUp this s)) = (unat this + unat (m_pMember1 s)) mod 2 ^ 32
   \<and> unat (m_pMember2 (FixUp this s)) = (unat this + unat (m_pMember2 s)) mod 2 ^ 32
   \<and> m_pMember2 (FixUp this (s\<lparr>m_pMember1 := x\<rparr>)) = m_pMember2 (FixUp this s)"
  by (simp add: FixUp_def unat_word_ariths)

section \<open>Properties of the queries\<close>

subsection \<open>A traversal hands its candidates to the callback until it stops\<close>

lemma deliver_append:
  "deliver cb (xs @ ys) ctx =
     (case deliver cb xs ctx of (True, ctx') \<Rightarrow> deliver cb ys ctx' | (False, ctx') \<Rightarrow> (False, ctx'))"
  by (induction xs arbitrary: ctx) (auto split: prod.splits bool.splits)

lemma visit_leaf_deliver:
  "visit_leaf hit soup cb is ctx = deliver cb (leaf_hits hit soup is) ctx"
  by (induction "is" arbitrary: ctx) (auto split: option.splits prod.splits bool.splits)

lemma sphere_node_deliver:
  "sphere_node st soup s cb node ctx = deliver cb (sphere_hits st soup s node) ctx"
  by (induction node arbitrary: ctx)
     (auto simp: visit_leaf_deliver deliver_append split: prod.splits bool.splits)

lemma line_node_deliver:
  "line_node lt soup l cb node ctx = deliver cb (line_hits lt soup l node) ctx"
  by (induction node arbitrary: ctx)
     (auto simp: visit_leaf_deliver deliver_append split: prod.splits bool.splits)

lemma deliver_traced:
  "deliver (traced cb) rs (tr, ctx) =
     (fst (deliver cb rs ctx), (tr @ calls cb rs ctx, snd (deliver cb rs ctx)))"
  by (induction rs arbitrary: tr ctx) (auto simp: traced_def split: prod.splits bool.splits)

lemma sphere_trace_calls:
  "sphere_trace st tree s cb ctx = calls cb (sphere_hits st (kd_soup tree) s (kd_root tree)) ctx"
  by (simp add: sphere_trace_def IntersectSphere_def sphere_node_deliver deliver_traced)

lemma line_trace_calls:
  "line_trace lt tree l cb ctx = calls cb (line_hits lt (kd_soup tree) l (kd_root tree)) ctx"
  by (simp add: line_trace_def IntersectLine_def line_node_deliver deliver_traced)

text \<open>Recording the invocations does not change what the caller's callback does to its
  context.\<close>

lemma IntersectSphere_traced:
  "snd (IntersectSphere st tree s (traced cb) (tr, ctx)) = IntersectSphere st tree s cb ctx"
  by (simp add: IntersectSphere_def sphere_node_deliver deliver_traced)

lemma IntersectLine_traced:
  "snd (IntersectLine lt tree l (traced cb) (tr, ctx)) = IntersectLine lt tree l cb ctx"
  by (simp add: IntersectLine_def line_node_deliver deliver_traced)

lemma calls_stop_last: "list_all snd (butlast (calls cb rs ctx))"
  by (induction rs arbitrary: ctx) (auto split: prod.splits bool.splits)

lemma calls_keep: "\<forall>r c. fst (keep r c) \<Longrightarrow> calls keep rs ctx = map (\<lambda>r. (r, True)) rs"
proof (induction rs arbitrary: ctx)
  case Nil
  then show ?case by simp
next
  case (Cons r rs)
  from Cons.prems have "fst (keep r ctx)" by blast
  then obtain c' where "keep r ctx = (True, c')" by (cases "keep r ctx") auto
  with Cons show ?case by simp
qed

lemma calls_stop: "\<forall>r c. \<not> fst (stop r c) \<Longrightarrow> calls stop rs ctx = map (\<lambda>r. (r, False)) (take 1 rs)"
proof (cases rs)
  case Nil
  then show ?thesis by simp
next
  case (Cons r rs')
  assume "\<forall>r c. \<not> fst (stop r c)"
  then have "\<not> fst (stop r ctx)" by blast
  then obtain c' where "stop r ctx = (False, c')" by (cases "stop r ctx") auto
  with Cons show ?thesis by simp
qed

lemma calls_Nil_iff: "calls cb rs ctx = [] \<longleftrightarrow> rs = []"
  by (cases rs) (auto split: prod.splits bool.splits)

subsection \<open>The traversals reach every leaf that holds a point of the query shape\<close>

lemma coord_point_at:
  "coord a (point_at l t) = coord a (start l) + t * (coord a (finish l) - coord a (start l))"
  by (cases a) (simp_all add: point_at_def)

lemma point_at_1: "point_at l 1 = finish l"
  by (simp add: point_at_def)

lemma in_sphere_coord:
  assumes "in_sphere s x" "0 \<le> radius s"
  shows "\<bar>coord a x - coord a (centre s)\<bar> \<le> radius s"
proof -
  have "(coord a x - coord a (centre s))\<^sup>2 \<le> (radius s)\<^sup>2"
    using assms(1) unfolding in_sphere_def
    by (cases a) (auto intro: order_trans[rotated] simp: add_nonneg_nonneg)
  then show ?thesis using assms(2)
    by (metis abs_le_square_iff abs_of_nonneg)
qed

lemma between_coord:
  assumes "0 \<le> t" "t \<le> u"
  shows "min (coord a (start l)) (coord a (point_at l u)) \<le> coord a (point_at l t)"
    and "coord a (point_at l t) \<le> max (coord a (start l)) (coord a (point_at l u))"
proof -
  let ?d = "coord a (finish l) - coord a (start l)"
  have "0 \<le> ?d \<or> ?d \<le> 0" by linarith
  then have "(0 \<le> t * ?d \<and> t * ?d \<le> u * ?d) \<or> (u * ?d \<le> t * ?d \<and> t * ?d \<le> 0)"
    using assms by (auto simp: mult_right_mono mult_right_mono_neg mult_nonneg_nonneg mult_nonneg_nonpos)
  then show "min (coord a (start l)) (coord a (point_at l u)) \<le> coord a (point_at l t)"
    and "coord a (point_at l t) \<le> max (coord a (start l)) (coord a (point_at l u))"
    by (auto simp: coord_point_at)
qed

lemma leaf_hits_set:
  "set (leaf_hits hit soup is) = {r. \<exists>i\<in>set is. test_polygon hit soup i = Some r}"
  by (induction "is") (auto split: option.splits)

lemma test_polygon_Some:
  "test_polygon hit soup i = Some r \<longleftrightarrow>
     i < length soup \<and> (\<exists>h. hit (soup ! i) = Some h \<and> r = report i h)"
  by (auto simp: test_polygon_def)

lemma distance_report: "distance (report i h) = contact_distance h"
  by (simp add: report_def)

lemma sphere_hits_cover:
  assumes "in_sphere s x" "0 \<le> radius s"
  shows "is \<in> set (leaves_at node x) \<Longrightarrow> i \<in> set is \<Longrightarrow> test_polygon (st s) soup i = Some r
    \<Longrightarrow> r \<in> set (sphere_hits st soup s node)"
proof (induction node)
  case (Leaf js)
  then show ?case by (auto simp: leaf_hits_set)
next
  case (Split a c lo hi)
  have b: "\<bar>coord a x - coord a (centre s)\<bar> \<le> radius s"
    using assms by (rule in_sphere_coord)
  from Split.prems(1) consider
    (L) "coord a x \<le> c" "is \<in> set (leaves_at lo x)" | (U) "c \<le> coord a x" "is \<in> set (leaves_at hi x)"
    by (auto split: if_splits)
  then show ?case
  proof cases
    case L
    then have "sphere_reaches_lower s a c" using b by (simp add: sphere_reaches_lower_def)
    with L Split show ?thesis by simp
  next
    case U
    then have "sphere_reaches_upper s a c" using b by (simp add: sphere_reaches_upper_def)
    with U Split show ?thesis by simp
  qed
qed

lemma line_hits_cover:
  assumes "0 \<le> t" "t \<le> 1"
  shows "is \<in> set (leaves_at node (point_at l t)) \<Longrightarrow> i \<in> set is
    \<Longrightarrow> test_polygon (lt l) soup i = Some r
    \<Longrightarrow> r \<in> set (line_hits lt soup l node)"
proof (induction node)
  case (Leaf js)
  then show ?case by (auto simp: leaf_hits_set)
next
  case (Split a c lo hi)
  note bt = between_coord[OF assms, of a l, unfolded point_at_1]
  from Split.prems(1) consider
    (L) "coord a (point_at l t) \<le> c" "is \<in> set (leaves_at lo (point_at l t))"
  | (U) "c \<le> coord a (point_at l t)" "is \<in> set (leaves_at hi (point_at l t))"
    by (auto split: if_splits)
  then show ?case
  proof cases
    case L
    then have "line_reaches_lower l a c" using bt(1) by (simp add: line_reaches_lower_def)
    with L Split show ?thesis by simp
  next
    case U
    then have "line_reaches_upper l a c" using bt(2) by (simp add: line_reaches_upper_def)
    with U Split show ?thesis by simp
  qed
qed

lemma sphere_hits_subset:
  "r \<in> set (sphere_hits st soup s node) \<Longrightarrow> \<exists>i. test_polygon (st s) soup i = Some r"
  by (induction node) (auto simp: leaf_hits_set split: if_splits)

lemma line_hits_subset:
  "r \<in> set (line_hits lt soup l node) \<Longrightarrow> \<exists>i. test_polygon (lt l) soup i = Some r"
  by (induction node) (auto simp: leaf_hits_set split: if_splits)

lemma line_hit_located:
  assumes ex: "line_test_exact pts lt soup l" and ix: "indexed pts soup node"
    and hit: "test_polygon (lt l) soup i = Some r"
  shows "0 \<le> distance r \<and> distance r \<le> 1
     \<and> (\<exists>is\<in>set (leaves_at node (point_at l (distance r))). i \<in> set is)"
proof -
  from hit obtain h where i: "i < length soup" and h: "lt l (soup ! i) = Some h"
    and r: "r = report i h"
    by (auto simp: test_polygon_Some)
  from ex i h have d: "0 \<le> contact_distance h" "contact_distance h \<le> 1"
    and p: "point_at l (contact_distance h) \<in> pts (soup ! i)"
    by (auto simp: line_test_exact_def split: option.splits)
  from ix i p have "\<exists>is\<in>set (leaves_at node (point_at l (contact_distance h))). i \<in> set is"
    by (auto simp: indexed_def)
  with d r show ?thesis by (simp add: distance_report)
qed

lemma line_hits_all:
  assumes ex: "line_test_exact pts lt soup l" and ix: "indexed pts soup node"
  shows "set (line_hits lt soup l node) = {r. \<exists>i. test_polygon (lt l) soup i = Some r}"
proof (intro set_eqI iffI)
  fix r assume "r \<in> set (line_hits lt soup l node)"
  then show "r \<in> {r. \<exists>i. test_polygon (lt l) soup i = Some r}"
    using line_hits_subset by fast
next
  fix r assume "r \<in> {r. \<exists>i. test_polygon (lt l) soup i = Some r}"
  then obtain i where hit: "test_polygon (lt l) soup i = Some r" by blast
  from line_hit_located[OF ex ix hit] obtain "is" where
    "0 \<le> distance r" "distance r \<le> 1"
    "is \<in> set (leaves_at node (point_at l (distance r)))" "i \<in> set is"
    by blast
  then show "r \<in> set (line_hits lt soup l node)"
    using hit by (rule line_hits_cover)
qed

lemma sphere_hits_all:
  assumes ex: "sphere_test_exact pts st soup s" and ix: "indexed pts soup node"
    and rad: "0 \<le> radius s"
  shows "set (sphere_hits st soup s node) = {r. \<exists>i. test_polygon (st s) soup i = Some r}"
proof (intro set_eqI iffI)
  fix r assume "r \<in> set (sphere_hits st soup s node)"
  then show "r \<in> {r. \<exists>i. test_polygon (st s) soup i = Some r}"
    using sphere_hits_subset by fast
next
  fix r assume "r \<in> {r. \<exists>i. test_polygon (st s) soup i = Some r}"
  then obtain i where hit: "test_polygon (st s) soup i = Some r" by blast
  then have i: "i < length soup" and "st s (soup ! i) \<noteq> None"
    by (auto simp: test_polygon_Some)
  with ex obtain x where x: "x \<in> pts (soup ! i)" "in_sphere s x"
    by (auto simp: sphere_test_exact_def sphere_meets_def)
  with ix i obtain "is" where "is \<in> set (leaves_at node x)" "i \<in> set is"
    by (auto simp: indexed_def)
  with x(2) rad show "r \<in> set (sphere_hits st soup s node)"
    using hit by (rule sphere_hits_cover)
qed

lemma some_hit_iff_meets:
  assumes "line_test_exact pts lt soup l"
  shows "(\<exists>i r. test_polygon (lt l) soup i = Some r)
     \<longleftrightarrow> (\<exists>i<length soup. segment_meets pts l (soup ! i))"
proof
  assume "\<exists>i r. test_polygon (lt l) soup i = Some r"
  then obtain i h where i: "i < length soup" and h: "lt l (soup ! i) = Some h"
    by (auto simp: test_polygon_Some)
  with assms have "0 \<le> contact_distance h \<and> contact_distance h \<le> 1
     \<and> point_at l (contact_distance h) \<in> pts (soup ! i)"
    by (auto simp: line_test_exact_def split: option.splits)
  then have "segment_meets pts l (soup ! i)"
    unfolding segment_meets_def by blast
  with i show "\<exists>i<length soup. segment_meets pts l (soup ! i)" by blast
next
  assume "\<exists>i<length soup. segment_meets pts l (soup ! i)"
  then obtain i where i: "i < length soup" and m: "segment_meets pts l (soup ! i)" by blast
  with assms have "lt l (soup ! i) \<noteq> None"
    by (auto simp: line_test_exact_def split: option.splits)
  with i show "\<exists>i r. test_polygon (lt l) soup i = Some r"
    by (auto simp: test_polygon_Some)
qed

lemma some_sphere_hit_iff_meets:
  assumes "sphere_test_exact pts st soup s"
  shows "(\<exists>i r. test_polygon (st s) soup i = Some r)
     \<longleftrightarrow> (\<exists>i<length soup. sphere_meets pts s (soup ! i))"
  using assms by (auto simp: sphere_test_exact_def test_polygon_Some)

subsection \<open>The pruned search keeps the nearest hit\<close>

lemma no_farther_improve: "no_farther (improve best r) (distance r)"
  by (simp add: no_farther_def improve_def split: option.splits)

lemma no_farther_improve_mono: "no_farther best d \<Longrightarrow> no_farther (improve best r) d"
  by (auto simp: no_farther_def improve_def split: option.splits)

lemma nearest_leaf_mono: "no_farther best d \<Longrightarrow> no_farther (nearest_leaf hit soup is best) d"
  by (induction "is" arbitrary: best) (auto simp: no_farther_improve_mono split: option.splits)

lemma nearest_leaf_min:
  "i \<in> set is \<Longrightarrow> test_polygon hit soup i = Some r
     \<Longrightarrow> no_farther (nearest_leaf hit soup is best) (distance r)"
proof (induction "is" arbitrary: best)
  case Nil
  then show ?case by simp
next
  case (Cons j js)
  show ?case
  proof (cases "i = j")
    case True
    with Cons.prems show ?thesis
      by (simp add: nearest_leaf_mono no_farther_improve)
  next
    case False
    with Cons show ?thesis by simp
  qed
qed

lemma nearest_leaf_cases:
  "nearest_leaf hit soup is best = best
   \<or> (\<exists>i\<in>set is. test_polygon hit soup i = nearest_leaf hit soup is best)"
proof (induction "is" arbitrary: best)
  case Nil
  then show ?case by simp
next
  case (Cons j js)
  let ?b1 = "case test_polygon hit soup j of None \<Rightarrow> best | Some r \<Rightarrow> improve best r"
  have step: "?b1 = best \<or> test_polygon hit soup j = ?b1"
    by (auto simp: improve_def split: option.splits)
  from Cons.IH[of ?b1] step show ?case by auto
qed

lemma nearest_node_mono: "no_farther best d \<Longrightarrow> no_farther (nearest_node lt soup l node best) d"
  by (induction node arbitrary: best) (auto simp: nearest_leaf_mono Let_def)

lemma nearest_node_cases:
  "nearest_node lt soup l node best = best
   \<or> (\<exists>i. test_polygon (lt l) soup i = nearest_node lt soup l node best)"
proof (induction node arbitrary: best)
  case (Leaf js)
  show ?case using nearest_leaf_cases[of "lt l" soup js best] by auto
next
  case (Split a c lo hi)
  show ?case
    using Split.IH(1) Split.IH(2) by (simp add: Let_def) metis
qed

lemma pruned_lower_no_farther:
  assumes "0 \<le> t" "t \<le> 1" "coord a (point_at l t) \<le> c"
    and "\<not> segment_reaches_lower l (search_limit best) a c"
  shows "no_farther best t"
proof (cases best)
  case None
  with assms(4) have "c < min (coord a (start l)) (coord a (point_at l 1))"
    by (simp add: segment_reaches_lower_def search_limit_def not_le)
  with between_coord(1)[OF assms(1,2), of a l] assms(3) show ?thesis by simp
next
  case (Some b)
  with assms(4) have far: "c < min (coord a (start l)) (coord a (point_at l (distance b)))"
    by (simp add: segment_reaches_lower_def search_limit_def not_le)
  have "\<not> t \<le> distance b"
  proof
    assume "t \<le> distance b"
    from between_coord(1)[OF assms(1) this, of a l] far assms(3) show False by simp
  qed
  with Some show ?thesis by (simp add: no_farther_def)
qed

lemma pruned_upper_no_farther:
  assumes "0 \<le> t" "t \<le> 1" "c \<le> coord a (point_at l t)"
    and "\<not> segment_reaches_upper l (search_limit best) a c"
  shows "no_farther best t"
proof (cases best)
  case None
  with assms(4) have "max (coord a (start l)) (coord a (point_at l 1)) < c"
    by (simp add: segment_reaches_upper_def search_limit_def not_le)
  with between_coord(2)[OF assms(1,2), of a l] assms(3) show ?thesis by simp
next
  case (Some b)
  with assms(4) have far: "max (coord a (start l)) (coord a (point_at l (distance b))) < c"
    by (simp add: segment_reaches_upper_def search_limit_def not_le)
  have "\<not> t \<le> distance b"
  proof
    assume "t \<le> distance b"
    from between_coord(2)[OF assms(1) this, of a l] far assms(3) show False by simp
  qed
  with Some show ?thesis by (simp add: no_farther_def)
qed

lemma nearest_node_min:
  assumes t: "0 \<le> distance r" "distance r \<le> 1"
  shows "is \<in> set (leaves_at node (point_at l (distance r))) \<Longrightarrow> i \<in> set is
    \<Longrightarrow> test_polygon (lt l) soup i = Some r
    \<Longrightarrow> no_farther (nearest_node lt soup l node best) (distance r)"
proof (induction node arbitrary: best)
  case (Leaf js)
  then show ?case by (simp add: nearest_leaf_min)
next
  case (Split a c lo hi)
  let ?x = "point_at l (distance r)"
  let ?d = "distance r"
  have lower: "no_farther (if segment_reaches_lower l (search_limit b) a c
                       then nearest_node lt soup l lo b else b) ?d"
    if "coord a ?x \<le> c" "is \<in> set (leaves_at lo ?x)" for b
    using that Split.IH(1)[of b] Split.prems(2,3) pruned_lower_no_farther[OF t, of a l c b]
    by auto
  have upper: "no_farther (if segment_reaches_upper l (search_limit b) a c
                       then nearest_node lt soup l hi b else b) ?d"
    if "c \<le> coord a ?x" "is \<in> set (leaves_at hi ?x)" for b
    using that Split.IH(2)[of b] Split.prems(2,3) pruned_upper_no_farther[OF t, of c a l b]
    by auto
  have keep_lower: "no_farther (if segment_reaches_lower l (search_limit b) a c
                       then nearest_node lt soup l lo b else b) ?d" if "no_farther b ?d" for b
    using that by (simp add: nearest_node_mono)
  have keep_upper: "no_farther (if segment_reaches_upper l (search_limit b) a c
                       then nearest_node lt soup l hi b else b) ?d" if "no_farther b ?d" for b
    using that by (simp add: nearest_node_mono)
  from Split.prems(1) consider
    (L) "coord a ?x \<le> c" "is \<in> set (leaves_at lo ?x)"
  | (U) "c \<le> coord a ?x" "is \<in> set (leaves_at hi ?x)"
    by (auto split: if_splits)
  then show ?case
  proof cases
    case L
    show ?thesis
    proof (cases "coord a (start l) \<le> c")
      case True
      then show ?thesis
        using keep_upper[OF lower[OF L, of best]] by (simp add: Let_def)
    next
      case False
      then show ?thesis
        using lower[OF L] by (simp add: Let_def)
    qed
  next
    case U
    show ?thesis
    proof (cases "coord a (start l) \<le> c")
      case True
      then show ?thesis
        using upper[OF U] by (simp add: Let_def)
    next
      case False
      then show ?thesis
        using keep_lower[OF upper[OF U, of best]] by (simp add: Let_def)
    qed
  qed
qed

lemma nearest_node_root:
  assumes ex: "line_test_exact pts lt soup l" and ix: "indexed pts soup node"
  shows "case nearest_node lt soup l node None of
           None \<Rightarrow> \<forall>i. test_polygon (lt l) soup i = None
         | Some b \<Rightarrow> (\<exists>i. test_polygon (lt l) soup i = Some b)
                    \<and> (\<forall>i r. test_polygon (lt l) soup i = Some r \<longrightarrow> distance b \<le> distance r)"
proof -
  let ?res = "nearest_node lt soup l node None"
  have low: "no_farther ?res (distance r)" if "test_polygon (lt l) soup i = Some r" for i r
  proof -
    from line_hit_located[OF ex ix that] obtain "is" where
      "0 \<le> distance r" "distance r \<le> 1"
      "is \<in> set (leaves_at node (point_at l (distance r)))" "i \<in> set is"
      by blast
    then show ?thesis using that by (rule nearest_node_min)
  qed
  show ?thesis
  proof (cases ?res)
    case None
    with low have "\<forall>i. test_polygon (lt l) soup i = None"
      by (fastforce simp: no_farther_def)
    with None show ?thesis by simp
  next
    case (Some b)
    with nearest_node_cases[of lt soup l node None]
    have "\<exists>i. test_polygon (lt l) soup i = Some b" by auto
    moreover have "\<forall>i r. test_polygon (lt l) soup i = Some r \<longrightarrow> distance b \<le> distance r"
      using low Some by (auto simp: no_farther_def)
    ultimately show ?thesis using Some by simp
  qed
qed

lemma IntersectLineNearest_eq:
  "IntersectLineNearest lt tree l slot =
     (case nearest_node lt (kd_soup tree) l (kd_root tree) None of
        None \<Rightarrow> (False, slot) | Some r \<Rightarrow> (True, r))"
  by (simp add: IntersectLineNearest_def)

subsection \<open>The example scene\<close>

lemma vz_point_at_plane:
  assumes "vz (start l) \<noteq> vz (finish l)"
  shows "vz (point_at l t) = z \<longleftrightarrow> t = (z - vz (start l)) / (vz (finish l) - vz (start l))"
  using assms by (auto simp: point_at_def field_simps)

lemma quad_line_test_sound:
  assumes "quad_line_test l q = Some h"
  shows "0 \<le> contact_distance h \<and> contact_distance h \<le> 1
     \<and> point_at l (contact_distance h) \<in> quad_points q"
proof -
  let ?t = "(quad_z q - vz (start l)) / (vz (finish l) - vz (start l))"
  from assms have ne: "vz (start l) \<noteq> vz (finish l)"
    by (auto simp: quad_line_test_def Let_def split: if_splits)
  with assms have h: "contact_distance h = ?t" and r: "0 \<le> ?t" "?t \<le> 1"
    and box: "quad_x0 q \<le> vx (point_at l ?t)" "vx (point_at l ?t) \<le> quad_x1 q"
             "quad_y0 q \<le> vy (point_at l ?t)" "vy (point_at l ?t) \<le> quad_y1 q"
    by (auto simp: quad_line_test_def Let_def split: if_splits)
  have "vz (point_at l ?t) = quad_z q"
    using vz_point_at_plane[OF ne] by simp
  with h r box show ?thesis by (simp add: quad_points_def)
qed

lemma quad_line_test_complete:
  assumes ne: "vz (start l) \<noteq> vz (finish l)" and none: "quad_line_test l q = None"
  shows "\<not> segment_meets quad_points l q"
proof
  assume "segment_meets quad_points l q"
  then obtain t where t: "0 \<le> t" "t \<le> 1" and p: "point_at l t \<in> quad_points q"
    by (auto simp: segment_meets_def)
  from p have "vz (point_at l t) = quad_z q" by (simp add: quad_points_def)
  then have "t = (quad_z q - vz (start l)) / (vz (finish l) - vz (start l))"
    using vz_point_at_plane[OF ne] by simp
  with t p ne have "quad_line_test l q \<noteq> None"
    by (simp add: quad_line_test_def Let_def quad_points_def)
  with none show False by simp
qed

lemma quad_line_test_exact:
  assumes "vz (start l) \<noteq> vz (finish l)"
  shows "line_test_exact quad_points quad_line_test soup l"
  unfolding line_test_exact_def
proof (intro allI impI)
  fix i assume "i < length soup"
  show "case quad_line_test l (soup ! i) of
          None \<Rightarrow> \<not> segment_meets quad_points l (soup ! i)
        | Some h \<Rightarrow> 0 \<le> contact_distance h \<and> contact_distance h \<le> 1
                   \<and> point_at l (contact_distance h) \<in> quad_points (soup ! i)"
    using quad_line_test_complete[OF assms] quad_line_test_sound
    by (cases "quad_line_test l (soup ! i)") auto
qed

lemma clamp_closer:
  assumes "lo \<le> x" "x \<le> hi"
  shows "(clamp lo hi c - c)\<^sup>2 \<le> (x - c)\<^sup>2"
proof -
  have "\<bar>clamp lo hi c - c\<bar> \<le> \<bar>x - c\<bar>"
    using assms by (auto simp: clamp_def max_def min_def abs_if)
  then show ?thesis by (simp add: abs_le_square_iff)
qed

lemma quad_sphere_test_meets:
  assumes wf: "quad_x0 q \<le> quad_x1 q" "quad_y0 q \<le> quad_y1 q"
  shows "(quad_sphere_test s q \<noteq> None) = sphere_meets quad_points s q"
proof
  let ?p = "Vec3 (clamp (quad_x0 q) (quad_x1 q) (vx (centre s)))
                 (clamp (quad_y0 q) (quad_y1 q) (vy (centre s))) (quad_z q)"
  {
    assume "quad_sphere_test s q \<noteq> None"
    then have "in_sphere s ?p"
      by (auto simp: quad_sphere_test_def Let_def split: if_splits)
    moreover have "?p \<in> quad_points q"
      using wf by (auto simp: quad_points_def clamp_def)
    ultimately show "sphere_meets quad_points s q"
      unfolding sphere_meets_def by blast
  }
  {
    assume "sphere_meets quad_points s q"
    then obtain x where x: "x \<in> quad_points q" and ins: "in_sphere s x"
      by (auto simp: sphere_meets_def)
    from x have bx: "quad_x0 q \<le> vx x" "vx x \<le> quad_x1 q"
      and by': "quad_y0 q \<le> vy x" "vy x \<le> quad_y1 q" and bz: "vz x = quad_z q"
      by (auto simp: quad_points_def)
    have "(vx ?p - vx (centre s))\<^sup>2 \<le> (vx x - vx (centre s))\<^sup>2"
      using clamp_closer[OF bx] by simp
    moreover have "(vy ?p - vy (centre s))\<^sup>2 \<le> (vy x - vy (centre s))\<^sup>2"
      using clamp_closer[OF by'] by simp
    moreover have "(vz ?p - vz (centre s))\<^sup>2 = (vz x - vz (centre s))\<^sup>2"
      using bz by simp
    ultimately have "in_sphere s ?p"
      using ins unfolding in_sphere_def by linarith
    then show "quad_sphere_test s q \<noteq> None"
      by (simp add: quad_sphere_test_def Let_def)
  }
qed

lemma quad_sphere_test_exact:
  assumes "\<forall>q\<in>set soup. quad_x0 q \<le> quad_x1 q \<and> quad_y0 q \<le> quad_y1 q"
  shows "sphere_test_exact quad_points quad_sphere_test soup s"
  unfolding sphere_test_exact_def
  using assms by (auto simp: quad_sphere_test_meets simp del: not_None_eq)

lemma scene_indexed: "indexed quad_points (kd_soup scene_tree) (kd_root scene_tree)"
  by (auto simp: indexed_def scene_tree_def scene_soup_def quad_points_def less_Suc_eq)

lemma scene_sphere_keep:
  "sphere_trace quad_sphere_test scene_tree scene_sphere keep_going 0 =
     [(\<lparr>polygon = 0, point = Vec3 0 0 0, normal = Vec3 0 0 1, distance = 1 / 2\<rparr>, True),
      (\<lparr>polygon = 1, point = Vec3 0 0 2, normal = Vec3 0 0 1, distance = 1 / 2\<rparr>, True)]"
  by (simp add: scene_tree_def scene_soup_def scene_sphere_def keep_going_def
        sphere_trace_def IntersectSphere_def traced_def test_polygon_def report_def
        quad_sphere_test_def in_sphere_def clamp_def sphere_reaches_lower_def
        sphere_reaches_upper_def power2_eq_square)

lemma scene_line_keep:
  "line_trace quad_line_test scene_tree scene_line keep_going 0 =
     [(\<lparr>polygon = 0, point = Vec3 0 0 0, normal = Vec3 0 0 1, distance = 1 / 2\<rparr>, True),
      (\<lparr>polygon = 1, point = Vec3 0 0 2, normal = Vec3 0 0 1, distance = 3 / 10\<rparr>, True)]"
  by (simp add: scene_tree_def scene_soup_def scene_line_def keep_going_def
        line_trace_def IntersectLine_def traced_def test_polygon_def report_def
        quad_line_test_def point_at_def line_reaches_lower_def line_reaches_upper_def)

lemma scene_nearest:
  "IntersectLineNearest quad_line_test scene_tree scene_line empty_slot =
     (True, \<lparr>polygon = 1, point = Vec3 0 0 2, normal = Vec3 0 0 1, distance = 3 / 10\<rparr>)"
  by (simp add: scene_tree_def scene_soup_def scene_line_def
        IntersectLineNearest_def test_polygon_def report_def quad_line_test_def
        point_at_def segment_reaches_lower_def segment_reaches_upper_def search_limit_def
        improve_def)

text \<open>The scenario of the specification: the sphere at \<open>(0, 0, 0.5)\<close> of radius \<open>1\<close> makes
  one invocation, with the quad's index; the segment from \<open>(0, 0, 5)\<close> to \<open>(0, 0, -5)\<close> hits
  the quad at the parameter \<open>0.5\<close> with the normal along z; the sphere and the segment above
  the quad find nothing.\<close>

lemma scenario_sphere_hit:
  "map (\<lambda>e. polygon (fst e))
     (sphere_trace quad_sphere_test scenario_tree scenario_sphere keep_going 0) = [0]"
  by (simp add: scenario_tree_def scenario_sphere_def keep_going_def
        sphere_trace_def IntersectSphere_def traced_def test_polygon_def report_def
        quad_sphere_test_def in_sphere_def clamp_def sphere_reaches_lower_def
        sphere_reaches_upper_def power2_eq_square)

lemma scenario_line_hit:
  "IntersectLineNearest quad_line_test scenario_tree scene_line empty_slot
     = (True, \<lparr>polygon = 0, point = Vec3 0 0 0, normal = Vec3 0 0 1, distance = 1 / 2\<rparr>)"
  by (simp add: scenario_tree_def scene_line_def
        IntersectLineNearest_def test_polygon_def report_def quad_line_test_def
        point_at_def segment_reaches_lower_def segment_reaches_upper_def search_limit_def
        improve_def)

lemma scenario_sphere_miss:
  "sphere_trace quad_sphere_test scenario_tree miss_sphere keep_going 0 = []"
  by (simp add: scenario_tree_def miss_sphere_def keep_going_def
        sphere_trace_def IntersectSphere_def traced_def test_polygon_def report_def
        quad_sphere_test_def in_sphere_def clamp_def sphere_reaches_lower_def
        sphere_reaches_upper_def power2_eq_square)

lemma scenario_line_miss:
  "IntersectLineNearest quad_line_test scenario_tree miss_line empty_slot = (False, empty_slot)"
  by (simp add: scenario_tree_def miss_line_def
        IntersectLineNearest_def test_polygon_def report_def quad_line_test_def
        point_at_def segment_reaches_lower_def segment_reaches_upper_def search_limit_def
        improve_def)

lemma scene_line_meets:
  "\<exists>i<length (kd_soup scene_tree). segment_meets quad_points scene_line (kd_soup scene_tree ! i)"
proof -
  have "point_at scene_line (1 / 2) \<in> quad_points (kd_soup scene_tree ! 0)"
    by (simp add: scene_tree_def scene_soup_def scene_line_def point_at_def quad_points_def)
  then have "segment_meets quad_points scene_line (kd_soup scene_tree ! 0)"
    unfolding segment_meets_def by (intro exI[of _ "1 / 2"]) simp
  moreover have "0 < length (kd_soup scene_tree)"
    by (simp add: scene_tree_def scene_soup_def)
  ultimately show ?thesis by blast
qed

lemma scene_sphere_meets:
  "\<exists>i<length (kd_soup scene_tree). sphere_meets quad_points scene_sphere (kd_soup scene_tree ! i)"
proof -
  have "Vec3 0 0 0 \<in> quad_points (kd_soup scene_tree ! 0)"
    by (simp add: scene_tree_def scene_soup_def quad_points_def)
  moreover have "in_sphere scene_sphere (Vec3 0 0 0)"
    by (simp add: scene_sphere_def in_sphere_def power2_eq_square)
  ultimately have "sphere_meets quad_points scene_sphere (kd_soup scene_tree ! 0)"
    unfolding sphere_meets_def by blast
  moreover have "0 < length (kd_soup scene_tree)"
    by (simp add: scene_tree_def scene_soup_def)
  ultimately show ?thesis by blast
qed

lemma scene_miss_nearest:
  "IntersectLineNearest quad_line_test scene_tree miss_line empty_slot = (False, empty_slot)"
  by (simp add: scene_tree_def scene_soup_def miss_line_def
        IntersectLineNearest_def test_polygon_def report_def quad_line_test_def
        point_at_def segment_reaches_lower_def segment_reaches_upper_def search_limit_def
        improve_def)

lemma scene_miss_sphere_trace:
  "sphere_trace quad_sphere_test scene_tree miss_sphere keep_going 0 = []"
  by (simp add: scene_tree_def scene_soup_def miss_sphere_def keep_going_def
        sphere_trace_def IntersectSphere_def traced_def test_polygon_def report_def
        quad_sphere_test_def in_sphere_def clamp_def sphere_reaches_lower_def
        sphere_reaches_upper_def power2_eq_square)

lemma scene_miss_line_trace:
  "line_trace quad_line_test scene_tree miss_line keep_going 0 = []"
  by (simp add: scene_tree_def scene_soup_def miss_line_def keep_going_def
        line_trace_def IntersectLine_def traced_def test_polygon_def report_def
        quad_line_test_def point_at_def line_reaches_lower_def line_reaches_upper_def)

lemma scene_wf_quads:
  "\<forall>q\<in>set (kd_soup scene_tree). quad_x0 q \<le> quad_x1 q \<and> quad_y0 q \<le> quad_y1 q"
  by (simp add: scene_tree_def scene_soup_def)

subsection \<open>Main results on the queries\<close>

text \<open>
  C5. For \<^verbatim>\<open>IntersectSphere\<close> and \<^verbatim>\<open>IntersectLine\<close>, with any callback: every
  invocation of the callback but the last one returned "continue", that is, once the
  callback has returned "stop" it is not invoked again. A callback that returns "stop" at
  its first invocation is handed the first of the results that a callback which never
  stops is handed, and nothing else: it is invoked exactly once whenever at least one
  polygon would be reported, however many would be.
\<close>

theorem callback_stop_ends_traversal:
  "list_all snd (butlast (sphere_trace st tree s cb ctx))
   \<and> list_all snd (butlast (line_trace lt tree l cb ctx))
   \<and> ((\<forall>r c. \<not> fst (stop r c)) \<and> (\<forall>r c. fst (keep r c)) \<longrightarrow>
        map fst (sphere_trace st tree s stop ctx1) = take 1 (map fst (sphere_trace st tree s keep ctx2))
      \<and> map fst (line_trace lt tree l stop ctx1) = take 1 (map fst (line_trace lt tree l keep ctx2))
      \<and> length (sphere_trace st tree s stop ctx1) = min 1 (length (sphere_trace st tree s keep ctx2))
      \<and> length (line_trace lt tree l stop ctx1) = min 1 (length (line_trace lt tree l keep ctx2)))"
proof -
  have a: "list_all snd (butlast (sphere_trace st tree s cb ctx))"
    by (simp add: sphere_trace_calls calls_stop_last)
  have b: "list_all snd (butlast (line_trace lt tree l cb ctx))"
    by (simp add: line_trace_calls calls_stop_last)
  have c: "map fst (sphere_trace st tree s stop ctx1) = take 1 (map fst (sphere_trace st tree s keep ctx2))
      \<and> map fst (line_trace lt tree l stop ctx1) = take 1 (map fst (line_trace lt tree l keep ctx2))
      \<and> length (sphere_trace st tree s stop ctx1) = min 1 (length (sphere_trace st tree s keep ctx2))
      \<and> length (line_trace lt tree l stop ctx1) = min 1 (length (line_trace lt tree l keep ctx2))"
    if "\<forall>r c. \<not> fst (stop r c)" "\<forall>r c. fst (keep r c)"
    using that
    by (simp add: sphere_trace_calls line_trace_calls calls_keep calls_stop take_map comp_def min.commute)
  from a b c show ?thesis by blast
qed

theorem callback_stop_ends_traversal_witness:
  "(\<forall>r c. \<not> fst (stop_at_first r c)) \<and> (\<forall>r c. fst (keep_going r c))
   \<and> map (\<lambda>e. polygon (fst e)) (sphere_trace quad_sphere_test scene_tree scene_sphere keep_going 0)
       = [0, 1]
   \<and> map (\<lambda>e. polygon (fst e)) (line_trace quad_line_test scene_tree scene_line keep_going 0)
       = [0, 1]
   \<and> map fst (sphere_trace quad_sphere_test scene_tree scene_sphere stop_at_first 0)
       = [\<lparr>polygon = 0, point = Vec3 0 0 0, normal = Vec3 0 0 1, distance = 1 / 2\<rparr>]
   \<and> map fst (line_trace quad_line_test scene_tree scene_line stop_at_first 0)
       = [\<lparr>polygon = 0, point = Vec3 0 0 0, normal = Vec3 0 0 1, distance = 1 / 2\<rparr>]
   \<and> length (sphere_trace quad_sphere_test scene_tree scene_sphere stop_at_first 0) = 1
   \<and> length (line_trace quad_line_test scene_tree scene_line stop_at_first 0) = 1"
proof -
  have s: "\<forall>r c. \<not> fst (stop_at_first r c)" by (simp add: stop_at_first_def)
  have k: "\<forall>r c. fst (keep_going r c)" by (simp add: keep_going_def)
  have sk: "map (\<lambda>e. polygon (fst e))
              (sphere_trace quad_sphere_test scene_tree scene_sphere keep_going 0) = [0, 1]"
    by (simp add: scene_sphere_keep)
  have lk: "map (\<lambda>e. polygon (fst e))
              (line_trace quad_line_test scene_tree scene_line keep_going 0) = [0, 1]"
    by (simp add: scene_line_keep)
  from s k callback_stop_ends_traversal
             [of quad_sphere_test scene_tree scene_sphere keep_going 0 quad_line_test scene_line
                 stop_at_first keep_going 0 0]
  have stopped:
    "map fst (sphere_trace quad_sphere_test scene_tree scene_sphere stop_at_first 0)
       = take 1 (map fst (sphere_trace quad_sphere_test scene_tree scene_sphere keep_going 0))"
    "map fst (line_trace quad_line_test scene_tree scene_line stop_at_first 0)
       = take 1 (map fst (line_trace quad_line_test scene_tree scene_line keep_going 0))"
    "length (sphere_trace quad_sphere_test scene_tree scene_sphere stop_at_first 0)
       = min 1 (length (sphere_trace quad_sphere_test scene_tree scene_sphere keep_going 0))"
    "length (line_trace quad_line_test scene_tree scene_line stop_at_first 0)
       = min 1 (length (line_trace quad_line_test scene_tree scene_line keep_going 0))"
    by simp_all
  have s1: "map fst (sphere_trace quad_sphere_test scene_tree scene_sphere stop_at_first 0)
       = [\<lparr>polygon = 0, point = Vec3 0 0 0, normal = Vec3 0 0 1, distance = 1 / 2\<rparr>]"
    by (simp add: stopped(1) scene_sphere_keep)
  have l1: "map fst (line_trace quad_line_test scene_tree scene_line stop_at_first 0)
       = [\<lparr>polygon = 0, point = Vec3 0 0 0, normal = Vec3 0 0 1, distance = 1 / 2\<rparr>]"
    by (simp add: stopped(2) scene_line_keep)
  have s2: "length (sphere_trace quad_sphere_test scene_tree scene_sphere stop_at_first 0) = 1"
    by (simp add: stopped(3) scene_sphere_keep)
  have l2: "length (line_trace quad_line_test scene_tree scene_line stop_at_first 0) = 1"
    by (simp add: stopped(4) scene_line_keep)
  from s k sk lk s1 l1 s2 l2 show ?thesis by blast
qed

text \<open>
  C4. For a tree that indexes its soup and a segment test that is exact on the soup's
  polygons, and a segment that meets at least one polygon: \<^verbatim>\<open>IntersectLineNearest\<close>
  reports a hit, and the hit distance it returns is the least of the hit distances of the
  results that \<^verbatim>\<open>IntersectLine\<close> hands, on the same segment, to a callback that never
  stops.
\<close>

theorem IntersectLineNearest_minimum:
  assumes ix: "indexed pts (kd_soup tree) (kd_root tree)"
    and lx: "line_test_exact pts lt (kd_soup tree) l"
    and keep: "\<forall>r c. fst (keep r c)"
    and meets: "\<exists>i<length (kd_soup tree). segment_meets pts l (kd_soup tree ! i)"
  shows "line_trace lt tree l keep ctx \<noteq> []
     \<and> fst (IntersectLineNearest lt tree l slot)
     \<and> distance (snd (IntersectLineNearest lt tree l slot))
         = Min ((\<lambda>e. distance (fst e)) ` set (line_trace lt tree l keep ctx))"
proof -
  let ?soup = "kd_soup tree" and ?root = "kd_root tree"
  let ?hits = "line_hits lt ?soup l ?root"
  have tr: "line_trace lt tree l keep ctx = map (\<lambda>r. (r, True)) ?hits"
    using keep by (simp add: line_trace_calls calls_keep)
  have all: "set ?hits = {r. \<exists>i. test_polygon (lt l) ?soup i = Some r}"
    using lx ix by (rule line_hits_all)
  from meets have some: "\<exists>i r. test_polygon (lt l) ?soup i = Some r"
    using some_hit_iff_meets[OF lx] by simp
  with all have ne: "?hits \<noteq> []" by auto
  from nearest_node_root[OF lx ix] some obtain b where
    b: "nearest_node lt ?soup l ?root None = Some b"
    and cand: "\<exists>i. test_polygon (lt l) ?soup i = Some b"
    and low: "\<forall>i r. test_polygon (lt l) ?soup i = Some r \<longrightarrow> distance b \<le> distance r"
    by (cases "nearest_node lt ?soup l ?root None") auto
  have img: "(\<lambda>e. distance (fst e)) ` set (line_trace lt tree l keep ctx) = distance ` set ?hits"
    by (simp add: tr image_image)
  have mn: "Min (distance ` set ?hits) = distance b"
  proof (rule Min_eqI)
    show "finite (distance ` set ?hits)" by simp
    show "distance b \<le> y" if "y \<in> distance ` set ?hits" for y
      using that low all by auto
    show "distance b \<in> distance ` set ?hits"
      using cand all by auto
  qed
  have c1: "line_trace lt tree l keep ctx \<noteq> []"
    using ne by (simp add: tr)
  have c2: "fst (IntersectLineNearest lt tree l slot)"
    by (simp add: IntersectLineNearest_eq b)
  have "distance (snd (IntersectLineNearest lt tree l slot)) = distance b"
    by (simp add: IntersectLineNearest_eq b)
  with mn img have c3: "distance (snd (IntersectLineNearest lt tree l slot))
         = Min ((\<lambda>e. distance (fst e)) ` set (line_trace lt tree l keep ctx))"
    by simp
  from c1 c2 c3 show ?thesis by blast
qed

theorem IntersectLineNearest_minimum_witness:
  "indexed quad_points (kd_soup scene_tree) (kd_root scene_tree)
   \<and> line_test_exact quad_points quad_line_test (kd_soup scene_tree) scene_line
   \<and> (\<forall>r c. fst (keep_going r c))
   \<and> (\<exists>i<length (kd_soup scene_tree). segment_meets quad_points scene_line (kd_soup scene_tree ! i))
   \<and> map (\<lambda>e. distance (fst e)) (line_trace quad_line_test scene_tree scene_line keep_going 0)
       = [1 / 2, 3 / 10]
   \<and> IntersectLineNearest quad_line_test scene_tree scene_line empty_slot
       = (True, \<lparr>polygon = 1, point = Vec3 0 0 2, normal = Vec3 0 0 1, distance = 3 / 10\<rparr>)
   \<and> distance (snd (IntersectLineNearest quad_line_test scene_tree scene_line empty_slot))
       = Min ((\<lambda>e. distance (fst e))
               ` set (line_trace quad_line_test scene_tree scene_line keep_going 0))"
proof -
  have ix: "indexed quad_points (kd_soup scene_tree) (kd_root scene_tree)"
    by (rule scene_indexed)
  have lx: "line_test_exact quad_points quad_line_test (kd_soup scene_tree) scene_line"
    by (rule quad_line_test_exact) (simp add: scene_line_def)
  have k: "\<forall>r c. fst (keep_going r c)" by (simp add: keep_going_def)
  note m = scene_line_meets
  have tr: "map (\<lambda>e. distance (fst e)) (line_trace quad_line_test scene_tree scene_line keep_going 0)
       = [1 / 2, 3 / 10]"
    by (simp add: scene_line_keep)
  from IntersectLineNearest_minimum[OF ix lx k m, of 0 empty_slot]
  have mn: "distance (snd (IntersectLineNearest quad_line_test scene_tree scene_line empty_slot))
       = Min ((\<lambda>e. distance (fst e))
               ` set (line_trace quad_line_test scene_tree scene_line keep_going 0))"
    by blast
  from ix lx k m tr scene_nearest mn show ?thesis by blast
qed

text \<open>
  C6. For a tree that indexes its soup and per-polygon tests that are exact on the soup's
  polygons: \<^verbatim>\<open>IntersectLineNearest\<close> returns true exactly when some polygon of the soup
  meets the segment, and then the slot holds the polygon index, point, normal and distance
  of a hit whose distance is the least among all polygons of the soup; otherwise it returns
  false. A miss is an ordinary result of the call. \<^verbatim>\<open>IntersectSphere\<close> and
  \<^verbatim>\<open>IntersectLine\<close> invoke the callback not at all exactly when no polygon of the soup
  meets the sphere, or the segment.
\<close>

theorem IntersectLineNearest_found_signal:
  assumes ix: "indexed pts (kd_soup tree) (kd_root tree)"
    and lx: "line_test_exact pts lt (kd_soup tree) l"
    and sx: "sphere_test_exact pts st (kd_soup tree) s"
    and rad: "0 \<le> radius s"
  shows "(fst (IntersectLineNearest lt tree l slot)
            \<longleftrightarrow> (\<exists>i<length (kd_soup tree). segment_meets pts l (kd_soup tree ! i)))
     \<and> (fst (IntersectLineNearest lt tree l slot) \<longrightarrow>
          (\<exists>i<length (kd_soup tree). \<exists>h. lt l (kd_soup tree ! i) = Some h
              \<and> snd (IntersectLineNearest lt tree l slot) = report i h
              \<and> (\<forall>j<length (kd_soup tree). \<forall>h'. lt l (kd_soup tree ! j) = Some h'
                    \<longrightarrow> contact_distance h \<le> contact_distance h')))
     \<and> (sphere_trace st tree s cb ctx = []
            \<longleftrightarrow> \<not> (\<exists>i<length (kd_soup tree). sphere_meets pts s (kd_soup tree ! i)))
     \<and> (line_trace lt tree l cb ctx = []
            \<longleftrightarrow> \<not> (\<exists>i<length (kd_soup tree). segment_meets pts l (kd_soup tree ! i)))"
proof -
  let ?soup = "kd_soup tree" and ?root = "kd_root tree"
  let ?res = "nearest_node lt ?soup l ?root None"
  note root = nearest_node_root[OF lx ix]
  have found: "fst (IntersectLineNearest lt tree l slot)
            \<longleftrightarrow> (\<exists>i<length ?soup. segment_meets pts l (?soup ! i))"
  proof (cases ?res)
    case None
    with root have "\<not> (\<exists>i r. test_polygon (lt l) ?soup i = Some r)" by simp
    then have "\<not> (\<exists>i<length ?soup. segment_meets pts l (?soup ! i))"
      using some_hit_iff_meets[OF lx] by simp
    with None show ?thesis by (simp add: IntersectLineNearest_eq)
  next
    case (Some b)
    with root have "\<exists>i r. test_polygon (lt l) ?soup i = Some r" by auto
    then have "\<exists>i<length ?soup. segment_meets pts l (?soup ! i)"
      using some_hit_iff_meets[OF lx] by simp
    with Some show ?thesis by (simp add: IntersectLineNearest_eq)
  qed
  have slot: "\<exists>i<length ?soup. \<exists>h. lt l (?soup ! i) = Some h
              \<and> snd (IntersectLineNearest lt tree l slot) = report i h
              \<and> (\<forall>j<length ?soup. \<forall>h'. lt l (?soup ! j) = Some h'
                    \<longrightarrow> contact_distance h \<le> contact_distance h')"
    if "fst (IntersectLineNearest lt tree l slot)"
  proof -
    from that obtain b where b: "?res = Some b"
      by (cases ?res) (auto simp: IntersectLineNearest_eq)
    with root obtain i where hit: "test_polygon (lt l) ?soup i = Some b"
      and low: "\<forall>j r. test_polygon (lt l) ?soup j = Some r \<longrightarrow> distance b \<le> distance r"
      by auto
    from hit obtain h where i: "i < length ?soup" and h: "lt l (?soup ! i) = Some h"
      and bh: "b = report i h"
      by (auto simp: test_polygon_Some)
    have "contact_distance h \<le> contact_distance h'"
      if "j < length ?soup" "lt l (?soup ! j) = Some h'" for j h'
    proof -
      from that have "test_polygon (lt l) ?soup j = Some (report j h')"
        by (simp add: test_polygon_Some)
      with low have "distance b \<le> distance (report j h')" by blast
      then show ?thesis by (simp add: bh distance_report)
    qed
    then have low': "\<forall>j<length ?soup. \<forall>h'. lt l (?soup ! j) = Some h'
                    \<longrightarrow> contact_distance h \<le> contact_distance h'"
      by blast
    have "snd (IntersectLineNearest lt tree l slot) = report i h"
      by (simp add: IntersectLineNearest_eq b bh)
    with i h low' show ?thesis by blast
  qed
  have sph: "sphere_trace st tree s cb ctx = []
            \<longleftrightarrow> \<not> (\<exists>i<length ?soup. sphere_meets pts s (?soup ! i))"
  proof -
    have "set (sphere_hits st ?soup s ?root) = {} \<longleftrightarrow> \<not> (\<exists>i r. test_polygon (st s) ?soup i = Some r)"
      unfolding sphere_hits_all[OF sx ix rad] by blast
    then have "sphere_hits st ?soup s ?root = [] \<longleftrightarrow> \<not> (\<exists>i r. test_polygon (st s) ?soup i = Some r)"
      by simp
    then show ?thesis
      using some_sphere_hit_iff_meets[OF sx] by (simp add: sphere_trace_calls calls_Nil_iff)
  qed
  have lin: "line_trace lt tree l cb ctx = []
            \<longleftrightarrow> \<not> (\<exists>i<length ?soup. segment_meets pts l (?soup ! i))"
  proof -
    have "set (line_hits lt ?soup l ?root) = {} \<longleftrightarrow> \<not> (\<exists>i r. test_polygon (lt l) ?soup i = Some r)"
      unfolding line_hits_all[OF lx ix] by blast
    then have "line_hits lt ?soup l ?root = [] \<longleftrightarrow> \<not> (\<exists>i r. test_polygon (lt l) ?soup i = Some r)"
      by simp
    then show ?thesis
      using some_hit_iff_meets[OF lx] by (simp add: line_trace_calls calls_Nil_iff)
  qed
  from found slot sph lin show ?thesis by blast
qed

theorem IntersectLineNearest_found_signal_witness:
  "indexed quad_points (kd_soup scene_tree) (kd_root scene_tree)
   \<and> line_test_exact quad_points quad_line_test (kd_soup scene_tree) scene_line
   \<and> line_test_exact quad_points quad_line_test (kd_soup scene_tree) miss_line
   \<and> sphere_test_exact quad_points quad_sphere_test (kd_soup scene_tree) scene_sphere
   \<and> sphere_test_exact quad_points quad_sphere_test (kd_soup scene_tree) miss_sphere
   \<and> 0 \<le> radius scene_sphere \<and> 0 \<le> radius miss_sphere
   \<and> IntersectLineNearest quad_line_test scene_tree scene_line empty_slot
       = (True, \<lparr>polygon = 1, point = Vec3 0 0 2, normal = Vec3 0 0 1, distance = 3 / 10\<rparr>)
   \<and> (\<exists>i<length (kd_soup scene_tree). segment_meets quad_points scene_line (kd_soup scene_tree ! i))
   \<and> IntersectLineNearest quad_line_test scene_tree miss_line empty_slot = (False, empty_slot)
   \<and> \<not> (\<exists>i<length (kd_soup scene_tree). segment_meets quad_points miss_line (kd_soup scene_tree ! i))
   \<and> line_trace quad_line_test scene_tree miss_line keep_going 0 = []
   \<and> sphere_trace quad_sphere_test scene_tree miss_sphere keep_going 0 = []
   \<and> \<not> (\<exists>i<length (kd_soup scene_tree). sphere_meets quad_points miss_sphere (kd_soup scene_tree ! i))
   \<and> sphere_trace quad_sphere_test scene_tree scene_sphere keep_going 0 \<noteq> []
   \<and> (\<exists>i<length (kd_soup scene_tree). sphere_meets quad_points scene_sphere (kd_soup scene_tree ! i))"
proof -
  have ix: "indexed quad_points (kd_soup scene_tree) (kd_root scene_tree)"
    by (rule scene_indexed)
  have lx: "line_test_exact quad_points quad_line_test (kd_soup scene_tree) scene_line"
    by (rule quad_line_test_exact) (simp add: scene_line_def)
  have lx': "line_test_exact quad_points quad_line_test (kd_soup scene_tree) miss_line"
    by (rule quad_line_test_exact) (simp add: miss_line_def)
  have sx: "sphere_test_exact quad_points quad_sphere_test (kd_soup scene_tree) scene_sphere"
    by (rule quad_sphere_test_exact) (rule scene_wf_quads)
  have sx': "sphere_test_exact quad_points quad_sphere_test (kd_soup scene_tree) miss_sphere"
    by (rule quad_sphere_test_exact) (rule scene_wf_quads)
  have r: "0 \<le> radius scene_sphere" by (simp add: scene_sphere_def)
  have r': "0 \<le> radius miss_sphere" by (simp add: miss_sphere_def)
  note hit = IntersectLineNearest_found_signal[OF ix lx sx r, of empty_slot keep_going 0]
  note miss = IntersectLineNearest_found_signal[OF ix lx' sx' r', of empty_slot keep_going 0]
  have found: "\<exists>i<length (kd_soup scene_tree).
                 segment_meets quad_points scene_line (kd_soup scene_tree ! i)"
    using hit scene_nearest by simp
  have none: "\<not> (\<exists>i<length (kd_soup scene_tree).
                 segment_meets quad_points miss_line (kd_soup scene_tree ! i))"
    using miss scene_miss_nearest by simp
  have nos: "\<not> (\<exists>i<length (kd_soup scene_tree).
                 sphere_meets quad_points miss_sphere (kd_soup scene_tree ! i))"
    using miss scene_miss_sphere_trace by simp
  have sph: "sphere_trace quad_sphere_test scene_tree scene_sphere keep_going 0 \<noteq> []"
    by (simp add: scene_sphere_keep)
  have some: "\<exists>i<length (kd_soup scene_tree).
                 sphere_meets quad_points scene_sphere (kd_soup scene_tree ! i)"
    using hit sph by blast
  from ix lx lx' sx sx' r r' scene_nearest found scene_miss_nearest none
    scene_miss_line_trace scene_miss_sphere_trace nos sph some
  show ?thesis by blast
qed

end
